theory Spec2Isabelle
  imports Complex_Main
begin

section \<open>Data model (types.ts)\<close>

text \<open>
  The session controller of the chess application is the React hook \<open>useChessGame\<close>.
  Its state cells become one record, every handler becomes a function from the state
  to the next state, and the rules engine (the chess.js object behind the
  \<open>ChessInstance\<close> interface) is a parameter: a record of the operations the hook
  calls, over an opaque type of positions.
\<close>

datatype color = White | Black

datatype piece_type = Pawn | Knight | Bishop | Rook | Queen | King

record Piece =
  ptype :: piece_type
  pcolor :: color

type_synonym Square = string

text \<open>\<open>winner: 'w' | 'b' | 'draw' | null\<close>: \<open>None\<close> is \<open>null\<close>.\<close>

datatype winner_tag = Side color | DrawTag

record GameStatus =
  isCheckmate :: bool
  isStalemate :: bool
  isDraw :: bool
  winner :: "winner_tag option"
  reason :: string

text \<open>The move object \<open>{from, to, promotion?}\<close> handed to the engine.\<close>

record MoveObj =
  mfrom :: string
  mto :: string
  promotion :: "string option"

text \<open>
  What \<open>game.move\<close> can receive at run time: a SAN string, a move object, or
  \<open>undefined\<close> (an index into an empty list of moves).
\<close>

datatype move_arg = San string | Obj MoveObj | Undefined

text \<open>An entry of \<open>game.moves({verbose: true})\<close>.\<close>

record VerboseMove =
  vfrom :: string
  vto :: string
  vpromotion :: "string option"
  vflags :: string

section \<open>The rules engine (ChessInstance)\<close>

text \<open>
  \<open>chess_move\<close> returns the position after the move, or \<open>None\<close> where chess.js
  returns \<open>null\<close> and leaves the game as it was. \<open>newChess\<close> is \<open>new Chess()\<close>.
\<close>

record 'p ChessInstance =
  newChess :: 'p
  chess_fen :: "'p \<Rightarrow> string"
  chess_turn :: "'p \<Rightarrow> color"
  chess_move :: "'p \<Rightarrow> move_arg \<Rightarrow> 'p option"
  chess_moves :: "'p \<Rightarrow> string list"
  chess_moves_verbose :: "'p \<Rightarrow> VerboseMove list"
  chess_moves_square :: "'p \<Rightarrow> Square \<Rightarrow> VerboseMove list"
  in_checkmate :: "'p \<Rightarrow> bool"
  in_stalemate :: "'p \<Rightarrow> bool"
  in_draw :: "'p \<Rightarrow> bool"
  in_threefold_repetition :: "'p \<Rightarrow> bool"
  insufficient_material :: "'p \<Rightarrow> bool"
  chess_history :: "'p \<Rightarrow> string list"
  chess_board :: "'p \<Rightarrow> Piece option list list"

section \<open>Session state (the hook's state cells)\<close>

text \<open>
  The state cells the handlers read and write. The message shown while the AI is
  thinking and the memoised moves of the selected square are presentation only and
  are left out. The \<open>game\<close> cell holds a chess.js object that the handlers mutate
  in place; here the cell holds the position of that object, which the handlers
  replace.
\<close>

record Material =
  white :: int
  black :: int

record 'p Session =
  game :: 'p
  fen :: string
  history :: "string list"
  selectedSquare :: "Square option"
  isAiThinking :: bool
  materialCount :: Material
  invalidMoveCount :: int
  manualGameStatus :: "GameStatus option"

datatype ai_mode = Gemini | Random

record Options =
  aiMode :: "ai_mode option"
  maxGameMoves :: "int option"
  maxInvalidMoves :: "int option"

text \<open>\<open>options?.maxGameMoves ?? 200\<close>, \<open>options?.maxInvalidMoves ?? 3\<close>, \<open>options?.aiMode ?? 'gemini'\<close>.\<close>

definition MAX_GAME_MOVES :: "Options option \<Rightarrow> int" where
  "MAX_GAME_MOVES opts =
     (case opts of None \<Rightarrow> 200
      | Some o' \<Rightarrow> (case maxGameMoves o' of None \<Rightarrow> 200 | Some n \<Rightarrow> n))"

definition MAX_INVALID_MOVES :: "Options option \<Rightarrow> int" where
  "MAX_INVALID_MOVES opts =
     (case opts of None \<Rightarrow> 3
      | Some o' \<Rightarrow> (case maxInvalidMoves o' of None \<Rightarrow> 3 | Some n \<Rightarrow> n))"

definition aiMode_of :: "Options option \<Rightarrow> ai_mode" where
  "aiMode_of opts =
     (case opts of None \<Rightarrow> Gemini
      | Some o' \<Rightarrow> (case aiMode o' of None \<Rightarrow> Gemini | Some m \<Rightarrow> m))"

text \<open>The values of the \<open>useState\<close> calls at the first render.\<close>

definition initialSession :: "'p ChessInstance \<Rightarrow> 'p Session" where
  "initialSession E =
     \<lparr> game = newChess E,
       fen = chess_fen E (newChess E),
       history = [],
       selectedSquare = None,
       isAiThinking = False,
       materialCount = \<lparr> white = 0, black = 0 \<rparr>,
       invalidMoveCount = 0,
       manualGameStatus = None \<rparr>"

section \<open>computeMaterialCount\<close>

definition pieceValues :: "piece_type \<Rightarrow> int option" where
  "pieceValues t =
     (case t of Pawn \<Rightarrow> Some 1 | Knight \<Rightarrow> Some 3 | Bishop \<Rightarrow> Some 3
              | Rook \<Rightarrow> Some 5 | Queen \<Rightarrow> Some 9 | King \<Rightarrow> Some 0)"

text \<open>The body of the inner loop: one square, with the two running totals.\<close>

definition countPiece :: "Material \<Rightarrow> Piece option \<Rightarrow> Material" where
  "countPiece acc sq =
     (case sq of
        None \<Rightarrow> acc
      | Some piece \<Rightarrow>
          (let val = (case pieceValues (ptype piece) of None \<Rightarrow> 0 | Some v \<Rightarrow> v) in
           if pcolor piece = White then acc\<lparr> white := white acc + val \<rparr>
           else acc\<lparr> black := black acc + val \<rparr>))"

definition computeMaterialCount :: "Piece option list list \<Rightarrow> Material" where
  "computeMaterialCount board =
     foldl (\<lambda>acc row. foldl countPiece acc row) \<lparr> white = 0, black = 0 \<rparr> board"

section \<open>gameStatus\<close>

definition gameStatus :: "'p ChessInstance \<Rightarrow> 'p Session \<Rightarrow> GameStatus" where
  "gameStatus E s =
     (case manualGameStatus s of
        Some m \<Rightarrow> m
      | None \<Rightarrow>
          if in_checkmate E (game s) then
            \<lparr> isCheckmate = True, isStalemate = False, isDraw = False,
              winner = Some (Side (if chess_turn E (game s) = White then Black else White)),
              reason = ''Checkmate'' \<rparr>
          else if in_stalemate E (game s) then
            \<lparr> isCheckmate = False, isStalemate = True, isDraw = True,
              winner = Some DrawTag, reason = ''Stalemate'' \<rparr>
          else if in_draw E (game s) then
            (let reason0 = ''Draw'';
                 reason1 = (if in_threefold_repetition E (game s)
                            then ''Threefold Repetition'' else reason0);
                 reason2 = (if insufficient_material E (game s)
                            then ''Insufficient Material'' else reason1)
             in \<lparr> isCheckmate = False, isStalemate = False, isDraw = True,
                  winner = Some DrawTag, reason = reason2 \<rparr>)
          else
            \<lparr> isCheckmate = False, isStalemate = False, isDraw = False,
              winner = None, reason = [] \<rparr>)"

section \<open>The move provider (services/geminiService.ts)\<close>

text \<open>
  A JavaScript completion: \<open>Throw\<close> is a thrown exception (for an async function, a
  rejected promise), \<open>Ok v\<close> a normal result.
\<close>

datatype 'a outcome = Throw | Ok 'a

text \<open>A value produced by \<open>JSON.parse\<close>. An object is the list of its own properties.\<close>

datatype json =
    JNull
  | JBool bool
  | JNum rat
  | JStr string
  | JArr "json list"
  | JObj "(string \<times> json) list"

text \<open>
  What \<open>await ai.models.generateContent(...)\<close> gives: the promise is rejected, or it
  yields a response whose \<open>text\<close> is a string or \<open>undefined\<close>.
\<close>

datatype provider_outcome = Rejected | Response "string option"

text \<open>
  What the service takes from its surroundings: the client call, and the two built-ins
  \<open>String.prototype.trim\<close> and \<open>JSON.parse\<close> (\<open>None\<close> where it throws a SyntaxError).
\<close>

record Runtime =
  generateContent :: "string \<Rightarrow> provider_outcome"
  String_trim :: "string \<Rightarrow> string"
  JSON_parse :: "string \<Rightarrow> json option"

text \<open>
  Reading a property of a parsed value: a TypeError on \<open>null\<close>, the own property of an
  object, \<open>undefined\<close> (\<open>None\<close>) on anything else (no boolean, number, string or array
  has a property called from, to or promotion).
\<close>

fun get_prop :: "json \<Rightarrow> string \<Rightarrow> json option outcome" where
  "get_prop JNull k = Throw"
| "get_prop (JObj kvs) k = Ok (map_of kvs k)"
| "get_prop v k = Ok None"

text \<open>\<open>typeof v === 'string'\<close>, with the string it holds.\<close>

fun as_string :: "json option \<Rightarrow> string option" where
  "as_string (Some (JStr s)) = Some s"
| "as_string v = None"

fun join :: "string \<Rightarrow> string list \<Rightarrow> string" where
  "join sep [] = []"
| "join sep [x] = x"
| "join sep (x # y # ys) = x @ sep @ join sep (y # ys)"

definition prompt_text :: "string \<Rightarrow> string \<Rightarrow> string \<Rightarrow> string" where
  "prompt_text fen' turn' legalMovesList =
     concat (map (\<lambda>l. l @ [CHR 0x0A])
       [ [],
         ''You are a world-class chess engine, Super Grandmaster Gemini, with an ELO of 2300.'',
         ''Your task is to analyse the given chess position and determine the best possible move.'',
         [],
         ''The current board state is represented in Forsyth-Edwards Notation (FEN).'',
         ''FEN: '' @ [CHR 0x22] @ fen' @ [CHR 0x22],
         [],
         ''It is '' @ turn' @ [CHR 0x27] @ ''s turn to move.'',
         [],
         ''The following legal moves are available in UCI notation: '' @ legalMovesList @ ''.'',
         ''Pick the best move from this list. Respond with a JSON object containing the'',
         ''fields '' @ [CHR 0x22] @ ''from'' @ [CHR 0x22] @ '' and '' @ [CHR 0x22] @ ''to''
            @ [CHR 0x22] @ '' (lowercase squares) and an optional '' @ [CHR 0x22]
            @ ''promotion'' @ [CHR 0x22] @ '' field'',
         ''(use '' @ [CHR 0x22] @ ''q'' @ [CHR 0x22]
            @ '' for queen promotion or leave it null). Do not provide any other'',
         ''text, commentary or formatting. Only output the JSON object.'' ])"

text \<open>
  The inner \<open>try\<close> block: \<open>Ok (Some m)\<close> is \<open>return moveObj\<close>, \<open>Ok None\<close> is running off
  the end of the block, \<open>Throw\<close> is what the inner \<open>catch\<close> then receives.
\<close>

definition parseMove :: "Runtime \<Rightarrow> string \<Rightarrow> MoveObj option outcome" where
  "parseMove R raw =
     (case JSON_parse R raw of
        None \<Rightarrow> Throw
      | Some parsed \<Rightarrow>
          (case get_prop parsed ''from'' of
             Throw \<Rightarrow> Throw
           | Ok pf \<Rightarrow>
               (case as_string pf of
                  None \<Rightarrow> Ok None
                | Some f \<Rightarrow>
                    (case get_prop parsed ''to'' of
                       Throw \<Rightarrow> Throw
                     | Ok pt \<Rightarrow>
                         (case as_string pt of
                            None \<Rightarrow> Ok None
                          | Some t \<Rightarrow>
                              (case get_prop parsed ''promotion'' of
                                 Throw \<Rightarrow> Throw
                               | Ok pp \<Rightarrow>
                                   Ok (Some \<lparr> mfrom = f, mto = t,
                                              promotion =
                                                (case as_string pp of
                                                   None \<Rightarrow> None
                                                 | Some p \<Rightarrow> if p \<noteq> [] then Some p else None) \<rparr>)))))))"

text \<open>
  The function: everything after the prompt is inside the outer \<open>try\<close>, whose \<open>catch\<close>
  returns \<open>null\<close>; the inner \<open>catch\<close> only logs, and control reaches \<open>return null\<close>.
\<close>

definition getAiMoveJson ::
  "Runtime \<Rightarrow> string \<Rightarrow> color \<Rightarrow> string list \<Rightarrow> MoveObj option outcome" where
  "getAiMoveJson R fen' player legalMoves =
     (let turn' = (if player = White then ''White'' else ''Black'');
          legalMovesList = join '', '' legalMoves;
          prompt = prompt_text fen' turn' legalMovesList;
          body =
            (case generateContent R prompt of
               Rejected \<Rightarrow> Throw
             | Response txt \<Rightarrow>
                 (case txt of
                    None \<Rightarrow> Throw
                  | Some t \<Rightarrow>
                      (let raw = String_trim R t in
                       case parseMove R raw of
                         Throw \<Rightarrow> Ok None
                       | Ok None \<Rightarrow> Ok None
                       | Ok (Some moveObj) \<Rightarrow> Ok (Some moveObj))))
      in case body of Throw \<Rightarrow> Ok None | Ok r \<Rightarrow> Ok r)"

section \<open>The handlers of useChessGame\<close>

definition makeMove :: "'p ChessInstance \<Rightarrow> 'p Session \<Rightarrow> move_arg \<Rightarrow> 'p Session \<times> bool" where
  "makeMove E s mv =
     (case chess_move E (game s) mv of
        Some g' \<Rightarrow>
          (s\<lparr> game := g',
              fen := chess_fen E g',
              history := chess_history E g',
              materialCount := computeMaterialCount (chess_board E g') \<rparr>, True)
      | None \<Rightarrow> (s, False))"

text \<open>
  \<open>moves[Math.floor(Math.random() * moves.length)]\<close>: the draw \<open>r\<close> stands for the random
  number, the index ranges over the whole list, and an empty list gives \<open>undefined\<close>.
\<close>

definition randomMove :: "nat \<Rightarrow> string list \<Rightarrow> move_arg" where
  "randomMove r ms = (if ms = [] then Undefined else San (ms ! (r mod length ms)))"

text \<open>\<open>if (moveToMake)\<close>: \<open>None\<close> is \<open>null\<close>.\<close>

fun truthy :: "move_arg option \<Rightarrow> bool" where
  "truthy None = False"
| "truthy (Some Undefined) = False"
| "truthy (Some (San x)) = (x \<noteq> [])"
| "truthy (Some (Obj m)) = True"

definition uci :: "VerboseMove \<Rightarrow> string" where
  "uci m = vfrom m @ vto m @ (case vpromotion m of Some p \<Rightarrow> (if p \<noteq> [] then p else []) | None \<Rightarrow> [])"

definition aiGuard :: "'p ChessInstance \<Rightarrow> 'p Session \<Rightarrow> bool" where
  "aiGuard E s =
     (chess_turn E (game s) = Black \<and> \<not> isCheckmate (gameStatus E s)
      \<and> \<not> isDraw (gameStatus E s) \<and> manualGameStatus s = None)"

text \<open>
  A call of \<open>makeAiMove\<close> with the provider as opponent suspends at its \<open>await\<close> and
  goes on when the provider has answered. What comes before the \<open>await\<close> is the test
  of the guard, \<open>setIsAiThinking(true)\<close> and the request, made from the position of
  that moment; this is the answer the awaited call gives.
\<close>

definition requestMove :: "'p ChessInstance \<Rightarrow> Runtime \<Rightarrow> 'p Session \<Rightarrow> MoveObj option outcome" where
  "requestMove E R s =
     (let verboseMoves = chess_moves_verbose E (game s);
          legalMoves = map uci verboseMoves
      in getAiMoveJson R (chess_fen E (game s)) Black legalMoves)"

text \<open>
  The first statements after the \<open>await\<close>: the proposal (\<open>None\<close> is \<open>null\<close>) and the state
  after them, or the exception of the awaited call.
\<close>

definition takeReply ::
  "MoveObj option outcome \<Rightarrow> 'p Session \<Rightarrow> (move_arg option \<times> 'p Session) outcome" where
  "takeReply reply s =
     (case reply of
        Throw \<Rightarrow> Throw
      | Ok (Some aiMoveJson) \<Rightarrow> Ok (Some (Obj aiMoveJson), s)
      | Ok None \<Rightarrow> Ok (None, s\<lparr> invalidMoveCount := invalidMoveCount s + 1 \<rparr>))"

text \<open>The rest of the \<open>try\<close> block, from the proposal on; \<open>r1\<close> and \<open>r2\<close> are the random draws.\<close>

definition applyProposal ::
  "'p ChessInstance \<Rightarrow> Options option \<Rightarrow> nat \<Rightarrow> nat \<Rightarrow> move_arg option \<Rightarrow> 'p Session \<Rightarrow> 'p Session" where
  "applyProposal E opts r1 r2 mv0 s =
     (let moveToMake =
            (if aiMode_of opts = Random \<or> mv0 = None
             then Some (randomMove r1 (chess_moves E (game s))) else mv0)
      in if truthy moveToMake then
           (case moveToMake of
              None \<Rightarrow> s
            | Some mv \<Rightarrow>
                (let (s1, moveResult) = makeMove E s mv in
                 if \<not> moveResult then
                   (let s2 = s1\<lparr> invalidMoveCount := invalidMoveCount s1 + 1 \<rparr>
                    in fst (makeMove E s2 (randomMove r2 (chess_moves E (game s2)))))
                 else s1))
         else s)"

text \<open>
  Everything after the \<open>await\<close>, run on the state the call finds when it resumes:
  neither the guard nor anything else is tested again. The only call of the \<open>try\<close>
  block that can throw is the awaited one, so the \<open>catch\<close> block starts from that
  same state. Here \<open>game s\<close> is the chess object of the call's closure.
\<close>

definition resumeAiMove ::
  "'p ChessInstance \<Rightarrow> Options option \<Rightarrow> nat \<Rightarrow> nat \<Rightarrow> MoveObj option outcome
     \<Rightarrow> 'p Session \<Rightarrow> 'p Session" where
  "resumeAiMove E opts r1 r2 reply s =
     (let s3 = (case takeReply reply s of
                  Ok (mv0, s1) \<Rightarrow> applyProposal E opts r1 r2 mv0 s1
                | Throw \<Rightarrow>
                    (let sc = s\<lparr> invalidMoveCount := invalidMoveCount s + 1 \<rparr>
                     in fst (makeMove E sc (randomMove r1 (chess_moves E (game sc))))))
      in s3\<lparr> isAiThinking := False \<rparr>)"

text \<open>
  \<open>makeAiMove\<close> as one piece: a call that nothing comes in between. With the random
  opponent there is no \<open>await\<close> and the call always runs like this.
\<close>

definition makeAiMove ::
  "'p ChessInstance \<Rightarrow> Runtime \<Rightarrow> Options option \<Rightarrow> nat \<Rightarrow> nat \<Rightarrow> 'p Session \<Rightarrow> 'p Session" where
  "makeAiMove E R opts r1 r2 s =
     (if aiGuard E s then
        (let s0 = s\<lparr> isAiThinking := True \<rparr>
         in if aiMode_of opts = Gemini
            then resumeAiMove E opts r1 r2 (requestMove E R s0) s0
            else (applyProposal E opts r1 r2 None s0)\<lparr> isAiThinking := False \<rparr>)
      else s)"

definition handleSquareClick :: "'p ChessInstance \<Rightarrow> 'p Session \<Rightarrow> Square \<Rightarrow> 'p Session" where
  "handleSquareClick E s square =
     (if chess_turn E (game s) \<noteq> White \<or> isCheckmate (gameStatus E s)
         \<or> isDraw (gameStatus E s) \<or> manualGameStatus s \<noteq> None
      then s
      else
        (case selectedSquare s of
           Some sel \<Rightarrow>
             (let (s1, moveSuccess) =
                    makeMove E s (Obj \<lparr> mfrom = sel, mto = square, promotion = Some ''q'' \<rparr>)
              in if \<not> moveSuccess then s1\<lparr> selectedSquare := Some square \<rparr>
                 else s1\<lparr> selectedSquare := None \<rparr>)
         | None \<Rightarrow>
             (let movesForSquare = chess_moves_square E (game s) square
              in if length movesForSquare > 0 then s\<lparr> selectedSquare := Some square \<rparr>
                 else s)))"

definition resetGame :: "'p ChessInstance \<Rightarrow> 'p Session \<Rightarrow> 'p Session" where
  "resetGame E s =
     (let newGame = newChess E in
      s\<lparr> game := newGame,
         fen := chess_fen E newGame,
         history := [],
         selectedSquare := None,
         isAiThinking := False,
         manualGameStatus := None,
         invalidMoveCount := 0,
         materialCount := computeMaterialCount (chess_board E newGame) \<rparr>)"

section \<open>The limit watchers\<close>

definition forfeitStatus :: GameStatus where
  "forfeitStatus =
     \<lparr> isCheckmate = False, isStalemate = False, isDraw = False,
       winner = Some (Side White),
       reason = ''Gemini forfeited after too many invalid moves'' \<rparr>"

definition maxMovesStatus :: GameStatus where
  "maxMovesStatus =
     \<lparr> isCheckmate = False, isStalemate = False, isDraw = True,
       winner = Some DrawTag,
       reason = ''Max moves reached'' \<rparr>"

text \<open>
  One run of the effect. Both tests read the \<open>manualGameStatus\<close> of the render the
  effect belongs to, and the two \<open>setManualGameStatus\<close> calls are applied in order.
\<close>

definition limitWatcher :: "Options option \<Rightarrow> 'p Session \<Rightarrow> 'p Session" where
  "limitWatcher opts s =
     (let manual0 = manualGameStatus s;
          s1 = (if manual0 = None \<and> invalidMoveCount s \<ge> MAX_INVALID_MOVES opts
                then s\<lparr> manualGameStatus := Some forfeitStatus \<rparr> else s);
          s2 = (if manual0 = None \<and> int (length (history s)) \<ge> MAX_GAME_MOVES opts
                then s1\<lparr> manualGameStatus := Some maxMovesStatus \<rparr> else s1)
      in s2)"

section \<open>The hook with its pending provider calls\<close>

text \<open>
  Between the two halves of a \<open>makeAiMove\<close> call other handlers can run: clicks, a
  reset, the limit watchers, other calls. The closure of a call holds the chess
  object of the render that started it; the code after the \<open>await\<close> reads and mutates
  that object, and writes the other state cells as they are when it runs. A reset
  puts a new object into the \<open>game\<close> cell, and the object it drops stays reachable
  from the calls pending on it. So the hook is its state cells (\<open>game\<close> being the
  object the cell holds now), the objects dropped by resets, and the pending calls,
  each with its object and the answer its request is going to get.
\<close>

datatype obj_ref = Current | Dropped nat

record Call =
  call_game :: obj_ref
  call_reply :: "MoveObj option outcome"

record 'p Hook =
  session :: "'p Session"
  dropped :: "'p list"
  pending :: "Call list"

definition initialHook :: "'p ChessInstance \<Rightarrow> 'p Hook" where
  "initialHook E = \<lparr> session = initialSession E, dropped = [], pending = [] \<rparr>"

text \<open>
  The timer of the AI turn fires and \<open>makeAiMove\<close> is called: where the guard holds,
  a call to the provider becomes pending; with the random opponent the whole call
  runs at once.
\<close>

definition startCall ::
  "'p ChessInstance \<Rightarrow> Runtime \<Rightarrow> Options option \<Rightarrow> nat \<Rightarrow> nat \<Rightarrow> 'p Hook \<Rightarrow> 'p Hook" where
  "startCall E R opts r1 r2 h =
     (if aiGuard E (session h) then
        (if aiMode_of opts = Gemini then
           (let s0 = (session h)\<lparr> isAiThinking := True \<rparr>
            in h\<lparr> session := s0,
                  pending := pending h @ [\<lparr> call_game = Current, call_reply = requestMove E R s0 \<rparr>] \<rparr>)
         else h\<lparr> session := makeAiMove E R opts r1 r2 (session h) \<rparr>)
      else h)"

text \<open>
  The pending call number \<open>k\<close> resumes. On the object of the \<open>game\<close> cell it runs on
  the state as it is; on a dropped object it mutates that object and writes the
  other cells, and the \<open>game\<close> cell keeps the object it holds.
\<close>

definition resumeCall ::
  "'p ChessInstance \<Rightarrow> Options option \<Rightarrow> nat \<Rightarrow> nat \<Rightarrow> nat \<Rightarrow> 'p Hook \<Rightarrow> 'p Hook" where
  "resumeCall E opts k r1 r2 h =
     (if k < length (pending h) then
        (let c = pending h ! k;
             others = take k (pending h) @ drop (Suc k) (pending h)
         in case call_game c of
              Current \<Rightarrow>
                h\<lparr> session := resumeAiMove E opts r1 r2 (call_reply c) (session h),
                   pending := others \<rparr>
            | Dropped i \<Rightarrow>
                (if i < length (dropped h) then
                   (let s = session h;
                        s' = resumeAiMove E opts r1 r2 (call_reply c) (s\<lparr> game := dropped h ! i \<rparr>)
                    in h\<lparr> session := s'\<lparr> game := game s \<rparr>,
                          dropped := (dropped h)[i := game s'],
                          pending := others \<rparr>)
                 else h))
      else h)"

definition retarget :: "nat \<Rightarrow> Call \<Rightarrow> Call" where
  "retarget n c = (case call_game c of Current \<Rightarrow> c\<lparr> call_game := Dropped n \<rparr> | Dropped i \<Rightarrow> c)"

text \<open>\<open>resetGame\<close> in the hook: the calls pending on the old object keep it.\<close>

definition resetHook :: "'p ChessInstance \<Rightarrow> 'p Hook \<Rightarrow> 'p Hook" where
  "resetHook E h =
     h\<lparr> session := resetGame E (session h),
        dropped := dropped h @ [game (session h)],
        pending := map (retarget (length (dropped h))) (pending h) \<rparr>"

text \<open>
  What can happen to the hook: a click on a square, the start of a \<open>makeAiMove\<close>
  call (with the provider's behaviour, and the random draws for the random
  opponent), a pending call resuming (with its random draws), a run of the limit
  watchers, and a reset.
\<close>

datatype event =
    Click Square
  | AiStart Runtime nat nat
  | AiResume nat nat nat
  | Watch
  | Reset

fun applyEvent :: "'p ChessInstance \<Rightarrow> Options option \<Rightarrow> 'p Hook \<Rightarrow> event \<Rightarrow> 'p Hook" where
  "applyEvent E opts h (Click sq) = h\<lparr> session := handleSquareClick E (session h) sq \<rparr>"
| "applyEvent E opts h (AiStart R r1 r2) = startCall E R opts r1 r2 h"
| "applyEvent E opts h (AiResume k r1 r2) = resumeCall E opts k r1 r2 h"
| "applyEvent E opts h Watch = h\<lparr> session := limitWatcher opts (session h) \<rparr>"
| "applyEvent E opts h Reset = resetHook E h"

definition run :: "'p ChessInstance \<Rightarrow> Options option \<Rightarrow> 'p Hook \<Rightarrow> event list \<Rightarrow> 'p Hook" where
  "run E opts h evs = foldl (applyEvent E opts) h evs"

fun isReset :: "event \<Rightarrow> bool" where
  "isReset Reset = True"
| "isReset e = False"

section \<open>Notions the properties are stated with\<close>



definition noReset :: "event list \<Rightarrow> bool" where
  "noReset evs = list_all (\<lambda>e. \<not> isReset e) evs"

text \<open>
  The contract of the engine the fallback relies on: every move the engine lists for
  a position is accepted by it there.
\<close>

definition listedMovesAccepted :: "'p ChessInstance \<Rightarrow> 'p \<Rightarrow> bool" where
  "listedMovesAccepted E g = list_all (\<lambda>x. chess_move E g (San x) \<noteq> None) (chess_moves E g)"

text \<open>
  A failure of a negotiation call: the provider gives no usable proposal (it throws or
  returns \<open>null\<close>), or its proposal is rejected by the engine. The random opponent
  asks no provider.
\<close>

definition negotiationFailed ::
  "'p ChessInstance \<Rightarrow> Runtime \<Rightarrow> Options option \<Rightarrow> 'p Session \<Rightarrow> bool" where
  "negotiationFailed E R opts s =
     (aiMode_of opts = Gemini \<and>
      (case getAiMoveJson R (chess_fen E (game s)) Black
              (map uci (chess_moves_verbose E (game s))) of
         Throw \<Rightarrow> True
       | Ok None \<Rightarrow> True
       | Ok (Some m) \<Rightarrow> chess_move E (game s) (Obj m) = None))"

text \<open>The same for a call that resumes on the state \<open>s\<close> with the answer \<open>reply\<close>.\<close>

definition replyFailed :: "'p ChessInstance \<Rightarrow> MoveObj option outcome \<Rightarrow> 'p Session \<Rightarrow> bool" where
  "replyFailed E reply s =
     (case reply of
        Throw \<Rightarrow> True
      | Ok None \<Rightarrow> True
      | Ok (Some m) \<Rightarrow> chess_move E (game s) (Obj m) = None)"

definition materialSynced :: "'p ChessInstance \<Rightarrow> 'p Session \<Rightarrow> bool" where
  "materialSynced E s = (materialCount s = computeMaterialCount (chess_board E (game s)))"

text \<open>
  The five variants of a status, read off its flags as the status display and the
  game-over dialog read them (\<open>getStatusMessage\<close>, \<open>getTitle\<close>).
\<close>

definition isCheckmateV :: "GameStatus \<Rightarrow> bool" where
  "isCheckmateV st = isCheckmate st"

definition isStalemateV :: "GameStatus \<Rightarrow> bool" where
  "isStalemateV st = isStalemate st"

definition isDrawV :: "GameStatus \<Rightarrow> bool" where
  "isDrawV st = isDraw st"

definition isForfeitV :: "GameStatus \<Rightarrow> bool" where
  "isForfeitV st =
     (\<not> isCheckmate st \<and> \<not> isStalemate st \<and> \<not> isDraw st \<and> winner st \<noteq> None)"

definition isInProgressV :: "GameStatus \<Rightarrow> bool" where
  "isInProgressV st =
     (\<not> isCheckmate st \<and> \<not> isStalemate st \<and> \<not> isDraw st \<and> winner st = None)"

text \<open>A draw that is not a stalemate: the third test of \<open>getStatusMessage\<close>.\<close>

definition isPlainDrawV :: "GameStatus \<Rightarrow> bool" where
  "isPlainDrawV st = (isDraw st \<and> \<not> isStalemate st)"

definition variantCount :: "GameStatus \<Rightarrow> nat" where
  "variantCount st =
     length (filter (\<lambda>v. v st)
       [isInProgressV, isCheckmateV, isStalemateV, isPlainDrawV, isForfeitV])"

text \<open>
  The provider's answer as the interface describes it: the call succeeds, its text
  parses as a JSON object whose \<open>from\<close> and \<open>to\<close> are strings, and \<open>promotion\<close> is kept
  only when it is a non-empty string; \<open>None\<close> in every other case.
\<close>

definition wellFormedProposal :: "Runtime \<Rightarrow> string \<Rightarrow> MoveObj option" where
  "wellFormedProposal R prompt =
     (case generateContent R prompt of
        Rejected \<Rightarrow> None
      | Response None \<Rightarrow> None
      | Response (Some t) \<Rightarrow>
          (case JSON_parse R (String_trim R t) of
             Some (JObj kvs) \<Rightarrow>
               (case (map_of kvs ''from'', map_of kvs ''to'') of
                  (Some (JStr f), Some (JStr t')) \<Rightarrow>
                    Some \<lparr> mfrom = f, mto = t',
                           promotion =
                             (case map_of kvs ''promotion'' of
                                Some (JStr p) \<Rightarrow> if p \<noteq> [] then Some p else None
                              | _ \<Rightarrow> None) \<rparr>
                | _ \<Rightarrow> None)
           | _ \<Rightarrow> None))"

section \<open>A scripted engine and concrete sessions\<close>

text \<open>
  A small instance of the engine interface, for evaluating the handlers on concrete
  sessions: a position carries the answers the engine gives for it, and a move is
  accepted when the position lists it.
\<close>

record ScriptedPos =
  sp_turn :: color
  sp_legal :: "string list"
  sp_checkmate :: bool
  sp_stalemate :: bool
  sp_draw :: bool
  sp_threefold :: bool
  sp_insufficient :: bool
  sp_history :: "string list"
  sp_board :: "Piece option list list"

definition sp_play :: "ScriptedPos \<Rightarrow> string \<Rightarrow> ScriptedPos option" where
  "sp_play p x =
     (if x \<in> set (sp_legal p)
      then Some (p\<lparr> sp_turn := (if sp_turn p = White then Black else White),
                     sp_history := sp_history p @ [x] \<rparr>)
      else None)"

fun sp_move :: "ScriptedPos \<Rightarrow> move_arg \<Rightarrow> ScriptedPos option" where
  "sp_move p (San x) = sp_play p x"
| "sp_move p (Obj m) = sp_play p (mfrom m @ mto m)"
| "sp_move p Undefined = None"

definition sp_verbose :: "string \<Rightarrow> VerboseMove" where
  "sp_verbose x = \<lparr> vfrom = take 2 x, vto = drop 2 x, vpromotion = None, vflags = ''n'' \<rparr>"

definition scriptedEngine :: "ScriptedPos \<Rightarrow> ScriptedPos ChessInstance" where
  "scriptedEngine start =
     \<lparr> newChess = start,
       chess_fen = (\<lambda>p. join ''/'' (sp_history p)),
       chess_turn = sp_turn,
       chess_move = sp_move,
       chess_moves = sp_legal,
       chess_moves_verbose = (\<lambda>p. map sp_verbose (sp_legal p)),
       chess_moves_square =
         (\<lambda>p sq. map sp_verbose (filter (\<lambda>x. take 2 x = sq) (sp_legal p))),
       in_checkmate = sp_checkmate,
       in_stalemate = sp_stalemate,
       in_draw = sp_draw,
       in_threefold_repetition = sp_threefold,
       insufficient_material = sp_insufficient,
       chess_history = sp_history,
       chess_board = sp_board \<rparr>"

definition pc :: "color \<Rightarrow> piece_type \<Rightarrow> Piece option" where
  "pc c t = Some \<lparr> ptype = t, pcolor = c \<rparr>"

definition backRank :: "color \<Rightarrow> Piece option list" where
  "backRank c = map (pc c) [Rook, Knight, Bishop, Queen, King, Bishop, Knight, Rook]"

text \<open>The board of the starting position, eighth rank first.\<close>

definition startBoard :: "Piece option list list" where
  "startBoard =
     [ backRank Black, replicate 8 (pc Black Pawn),
       replicate 8 None, replicate 8 None, replicate 8 None, replicate 8 None,
       replicate 8 (pc White Pawn), backRank White ]"

definition startPos :: ScriptedPos where
  "startPos =
     \<lparr> sp_turn = White, sp_legal = [''e2e4'', ''e7e5'', ''g1f3''],
       sp_checkmate = False, sp_stalemate = False, sp_draw = False,
       sp_threefold = False, sp_insufficient = False,
       sp_history = [], sp_board = startBoard \<rparr>"

definition chess :: "ScriptedPos ChessInstance" where
  "chess = scriptedEngine startPos"

text \<open>After 1. e4: Black (the AI) is to move.\<close>

definition afterE4 :: "ScriptedPos Session" where
  "afterE4 = fst (makeMove chess (initialSession chess) (San ''e2e4''))"

text \<open>White to move with the pawn on e2 selected.\<close>

definition e2Selected :: "ScriptedPos Session" where
  "e2Selected = (initialSession chess)\<lparr> selectedSquare := Some ''e2'' \<rparr>"

text \<open>Two bare kings, the same position for the third time.\<close>

definition bareKingsPos :: ScriptedPos where
  "bareKingsPos =
     \<lparr> sp_turn = White, sp_legal = [''e1d1'', ''e1f1''],
       sp_checkmate = False, sp_stalemate = False, sp_draw = True,
       sp_threefold = True, sp_insufficient = True,
       sp_history = [],
       sp_board = [ [None, None, None, None, pc Black King, None, None, None],
                    replicate 8 None, replicate 8 None, replicate 8 None,
                    replicate 8 None, replicate 8 None, replicate 8 None,
                    [None, None, None, None, pc White King, None, None, None] ] \<rparr>"

definition bareKings :: "ScriptedPos Session" where
  "bareKings = (initialSession chess)\<lparr> game := bareKingsPos \<rparr>"

text \<open>A position the engine reports as stalemate (and, as chess.js does, as a draw).\<close>

definition stalematePos :: ScriptedPos where
  "stalematePos =
     \<lparr> sp_turn = Black, sp_legal = [],
       sp_checkmate = False, sp_stalemate = True, sp_draw = True,
       sp_threefold = False, sp_insufficient = False,
       sp_history = [],
       sp_board = [ [None, None, None, None, None, None, None, pc Black King],
                    [None, None, None, None, None, pc White King, None, None],
                    [None, None, None, None, None, None, pc White Queen, None],
                    replicate 8 None, replicate 8 None, replicate 8 None,
                    replicate 8 None, replicate 8 None ] \<rparr>"

definition stalemated :: "ScriptedPos Session" where
  "stalemated = (initialSession chess)\<lparr> game := stalematePos \<rparr>"

text \<open>
  The session after the AI's third invalid reply, six half-moves into the game, and
  the session where the third invalid reply comes with the two-hundredth half-move.
\<close>

definition thirdInvalid :: "ScriptedPos Session" where
  "thirdInvalid =
     (initialSession chess)
       \<lparr> history := [''e4'', ''e5'', ''Nf3'', ''Nc6'', ''Bc4'', ''Bc5''],
         invalidMoveCount := 3 \<rparr>"

definition thirdInvalidAtMove200 :: "ScriptedPos Session" where
  "thirdInvalidAtMove200 =
     (initialSession chess)
       \<lparr> history := replicate 200 ''Kd1'',
         invalidMoveCount := 3 \<rparr>"

text \<open>The status the specification names for a forfeit.\<close>

definition specForfeitStatus :: GameStatus where
  "specForfeitStatus =
     \<lparr> isCheckmate = False, isStalemate = False, isDraw = False,
       winner = Some (Side White),
       reason = ''AI forfeited after too many invalid moves'' \<rparr>"

text \<open>Provider behaviours: a scripted parser, and a client that always replies one text.\<close>

definition replyE7E5 :: string where
  "replyE7E5 =
     ''{'' @ [CHR 0x22] @ ''from'' @ [CHR 0x22] @ '':'' @ [CHR 0x22] @ ''e7'' @ [CHR 0x22]
      @ '','' @ [CHR 0x22] @ ''to'' @ [CHR 0x22] @ '':'' @ [CHR 0x22] @ ''e5'' @ [CHR 0x22] @ ''}''"

definition scriptedParse :: "string \<Rightarrow> json option" where
  "scriptedParse raw =
     (if raw = replyE7E5 then Some (JObj [(''from'', JStr ''e7''), (''to'', JStr ''e5'')])
      else if raw = ''null'' then Some JNull
      else None)"

definition replying :: "string \<Rightarrow> Runtime" where
  "replying txt =
     \<lparr> generateContent = (\<lambda>prompt. Response (Some txt)),
       String_trim = (\<lambda>x. x),
       JSON_parse = scriptedParse \<rparr>"

text \<open>The only overrides the hook ever writes are the two of the limit watchers.\<close>

definition manualByWatcher :: "'p Session \<Rightarrow> bool" where
  "manualByWatcher s =
     (manualGameStatus s = None \<or> manualGameStatus s = Some forfeitStatus
      \<or> manualGameStatus s = Some maxMovesStatus)"


text \<open>
  A run of events without a reset: a click, the start of a call whose provider
  answers with a text that is no JSON, that call resuming, a run of the limit
  watchers, another click.
\<close>

definition sampleEvents :: "event list" where
  "sampleEvents =
     [Click ''e2'', AiStart (replying ''Nf6'') 0 1, AiResume 0 0 1, Watch, Click ''e4'']"

text \<open>
  One game of a slow provider: White plays e2 to e4 and the call of the AI turn
  starts.
\<close>

definition openingWith :: "string \<Rightarrow> event list" where
  "openingWith answer = [Click ''e2'', Click ''e4'', AiStart (replying answer) 0 0]"

text \<open>
  Three games are started and given up by a reset while their provider calls are
  pending, and a fourth is started. The three old calls then come back with no
  usable answer, each counted on the session of the fourth game, and the limit
  watcher declares the forfeit, while the call of the fourth game is still pending.
\<close>

definition staleCalls :: "event list" where
  "staleCalls =
     openingWith ''Nf6'' @ [Reset] @ openingWith ''Nf6'' @ [Reset] @ openingWith ''Nf6'' @ [Reset]
     @ openingWith replyE7E5
     @ [AiResume 0 1 0, AiResume 0 1 0, AiResume 0 1 0, Watch]"


text \<open>The session after the third invalid reply, with a provider call still pending.\<close>

definition thirdInvalidPending :: "ScriptedPos Hook" where
  "thirdInvalidPending =
     \<lparr> session = thirdInvalid, dropped = [],
       pending = [\<lparr> call_game = Current, call_reply = Ok None \<rparr>] \<rparr>"

section \<open>Basic facts about the handlers\<close>

lemma makeMove_keeps:
  "invalidMoveCount (fst (makeMove E s mv)) = invalidMoveCount s"
  "manualGameStatus (fst (makeMove E s mv)) = manualGameStatus s"
  by (simp_all add: makeMove_def split: option.splits)

lemma makeMove_snd: "snd (makeMove E s mv) = (chess_move E (game s) mv \<noteq> None)"
  by (auto simp add: makeMove_def split: option.splits)

lemma getAiMoveJson_Ok: "getAiMoveJson R f pl lm \<noteq> Throw"
  by (simp add: getAiMoveJson_def Let_def split: provider_outcome.splits option.splits outcome.splits)


lemma material_start: "computeMaterialCount startBoard = \<lparr> white = 39, black = 39 \<rparr>"
  by (simp add: computeMaterialCount_def startBoard_def backRank_def pc_def countPiece_def
        pieceValues_def eval_nat_numeral)

lemma chess_fields:
  "newChess chess = startPos" "chess_turn chess = sp_turn" "chess_move chess = sp_move"
  "chess_moves chess = sp_legal" "in_checkmate chess = sp_checkmate"
  "in_stalemate chess = sp_stalemate" "in_draw chess = sp_draw"
  "in_threefold_repetition chess = sp_threefold" "insufficient_material chess = sp_insufficient"
  "chess_history chess = sp_history" "chess_board chess = sp_board"
  "chess_moves_verbose chess = (\<lambda>p. map sp_verbose (sp_legal p))"
  "chess_fen chess = (\<lambda>p. join ''/'' (sp_history p))"
  by (simp_all add: chess_def scriptedEngine_def)

subsection \<open>The fallback move and the count of a call\<close>

lemma fallback_accepted:
  assumes "listedMovesAccepted E g" and "truthy (Some (randomMove r (chess_moves E g)))"
  shows "chess_move E g (randomMove r (chess_moves E g)) \<noteq> None"
proof (cases "chess_moves E g = []")
  case True
  with assms(2) show ?thesis by (simp add: randomMove_def)
next
  case False
  then have "chess_moves E g ! (r mod length (chess_moves E g)) \<in> set (chess_moves E g)"
    by simp
  with assms(1) have "chess_move E g (San (chess_moves E g ! (r mod length (chess_moves E g)))) \<noteq> None"
    unfolding listedMovesAccepted_def list_all_iff by blast
  with False show ?thesis by (simp add: randomMove_def)
qed

lemma applyProposal_fallback:
  assumes "listedMovesAccepted E (game s)" and "aiMode_of opts = Random \<or> mv0 = None"
  shows "invalidMoveCount (applyProposal E opts r1 r2 mv0 s) = invalidMoveCount s"
proof (cases "truthy (Some (randomMove r1 (chess_moves E (game s))))")
  case False
  with assms(2) show ?thesis by (auto simp add: applyProposal_def Let_def)
next
  case True
  from fallback_accepted [OF assms(1) True]
  have "snd (makeMove E s (randomMove r1 (chess_moves E (game s))))"
    by (simp add: makeMove_snd)
  with True assms(2) show ?thesis
    by (auto simp add: applyProposal_def Let_def makeMove_keeps split: prod.splits)
       (metis fst_conv makeMove_keeps(1))+
qed

lemma applyProposal_obj:
  assumes "aiMode_of opts = Gemini"
  shows "invalidMoveCount (applyProposal E opts r1 r2 (Some (Obj m)) s) =
         invalidMoveCount s + (if chess_move E (game s) (Obj m) = None then 1 else 0)"
proof (cases "chess_move E (game s) (Obj m)")
  case None
  then have "makeMove E s (Obj m) = (s, False)" by (simp add: makeMove_def)
  with assms None show ?thesis
    by (simp add: applyProposal_def Let_def makeMove_keeps)
next
  case (Some g')
  with assms show ?thesis
    by (simp add: applyProposal_def Let_def makeMove_def)
qed

text \<open>
  A call of the provider's turn that resumes, on whatever state it finds, counts one
  invalid attempt when its answer is unusable or rejected there, and none otherwise.
\<close>

lemma resumeAiMove_count:
  assumes "aiMode_of opts = Gemini" and "listedMovesAccepted E (game s)"
  shows "invalidMoveCount (resumeAiMove E opts r1 r2 reply s) =
         invalidMoveCount s + (if replyFailed E reply s then 1 else 0)"
proof (cases reply)
  case Throw
  then show ?thesis
    by (simp add: resumeAiMove_def takeReply_def replyFailed_def Let_def makeMove_keeps)
next
  case (Ok proposal)
  show ?thesis
  proof (cases proposal)
    case None
    let ?s1 = "s\<lparr> invalidMoveCount := invalidMoveCount s + 1 \<rparr>"
    have acc: "listedMovesAccepted E (game ?s1)" using assms(2) by simp
    from Ok None applyProposal_fallback [OF acc, of opts None r1 r2]
    show ?thesis by (simp add: resumeAiMove_def takeReply_def replyFailed_def Let_def)
  next
    case (Some m)
    with Ok applyProposal_obj [OF assms(1), of E r1 r2 m s]
    show ?thesis by (simp add: resumeAiMove_def takeReply_def replyFailed_def Let_def)
  qed
qed

lemma negotiationFailed_reply:
  "negotiationFailed E R opts s =
     (aiMode_of opts = Gemini \<and> replyFailed E (requestMove E R (s\<lparr> isAiThinking := b \<rparr>))
                                   (s\<lparr> isAiThinking := b \<rparr>))"
  by (simp add: negotiationFailed_def replyFailed_def requestMove_def Let_def
        split: outcome.splits option.splits)

subsection \<open>A finished game\<close>







lemma watcher_manual:
  "manualGameStatus (limitWatcher opts s) = manualGameStatus s
   \<or> manualGameStatus (limitWatcher opts s) = Some forfeitStatus
   \<or> manualGameStatus (limitWatcher opts s) = Some maxMovesStatus"
  by (simp add: limitWatcher_def Let_def)

lemma watcher_override_kept:
  "manualGameStatus s \<noteq> None \<Longrightarrow> limitWatcher opts s = s"
  by (simp add: limitWatcher_def Let_def)




subsection \<open>The override\<close>

lemma applyProposal_manual:
  "manualGameStatus (applyProposal E opts r1 r2 mv0 s) = manualGameStatus s"
  by (auto simp add: applyProposal_def Let_def makeMove_def split: option.splits prod.splits)

lemma resumeAiMove_manual:
  "manualGameStatus (resumeAiMove E opts r1 r2 reply s) = manualGameStatus s"
  by (auto simp add: resumeAiMove_def takeReply_def Let_def applyProposal_manual makeMove_keeps
        split: outcome.splits option.splits)

lemma makeAiMove_manual:
  "manualGameStatus (makeAiMove E R opts r1 r2 s) = manualGameStatus s"
  by (simp add: makeAiMove_def Let_def resumeAiMove_manual applyProposal_manual)

lemma click_manual:
  "manualGameStatus (handleSquareClick E s sq) = manualGameStatus s"
  by (auto simp add: handleSquareClick_def Let_def makeMove_def split: option.splits prod.splits)

lemma startCall_manual:
  "manualGameStatus (session (startCall E R opts r1 r2 h)) = manualGameStatus (session h)"
  by (simp add: startCall_def Let_def makeAiMove_manual)

lemma resumeCall_manual:
  "manualGameStatus (session (resumeCall E opts k r1 r2 h)) = manualGameStatus (session h)"
  by (simp add: resumeCall_def Let_def resumeAiMove_manual split: obj_ref.splits)

lemma event_override_kept:
  assumes "manualGameStatus (session h) = Some m" and "\<not> isReset e"
  shows "manualGameStatus (session (applyEvent E opts h e)) = Some m"
  using assms
  by (cases e)
     (simp_all add: click_manual startCall_manual resumeCall_manual watcher_override_kept)

lemma run_override_kept:
  "manualGameStatus (session h) = Some m \<Longrightarrow> noReset evs \<Longrightarrow>
   manualGameStatus (session (run E opts h evs)) = Some m"
proof (induction evs arbitrary: h)
  case Nil
  then show ?case by (simp add: run_def)
next
  case (Cons e evs)
  from Cons.prems have e: "\<not> isReset e" and r: "noReset evs" by (simp_all add: noReset_def)
  from Cons.IH [OF event_override_kept [OF Cons.prems(1) e] r, of E opts]
  show ?case by (simp add: run_def)
qed

lemma event_manualByWatcher:
  "manualByWatcher (session h) \<Longrightarrow> manualByWatcher (session (applyEvent E opts h e))"
proof (cases e)
  case (Click sq)
  assume "manualByWatcher (session h)"
  with Click show ?thesis by (simp add: manualByWatcher_def click_manual)
next
  case (AiStart R r1 r2)
  assume "manualByWatcher (session h)"
  with AiStart show ?thesis by (simp add: manualByWatcher_def startCall_manual)
next
  case (AiResume k r1 r2)
  assume "manualByWatcher (session h)"
  with AiResume show ?thesis by (simp add: manualByWatcher_def resumeCall_manual)
next
  case Watch
  assume "manualByWatcher (session h)"
  with Watch watcher_manual [of opts "session h"] show ?thesis
    by (auto simp add: manualByWatcher_def)
next
  case Reset
  then show ?thesis by (simp add: manualByWatcher_def resetHook_def resetGame_def Let_def)
qed

lemma run_manualByWatcher:
  "manualByWatcher (session h) \<Longrightarrow> manualByWatcher (session (run E opts h evs))"
  by (induction evs arbitrary: h) (simp_all add: run_def event_manualByWatcher)

lemma variantCount_engine:
  "manualGameStatus s = None \<Longrightarrow> variantCount (gameStatus E s) = 1"
  by (simp add: variantCount_def gameStatus_def isInProgressV_def isCheckmateV_def
        isStalemateV_def isPlainDrawV_def isForfeitV_def Let_def)

lemma variantCount_watcher:
  "variantCount forfeitStatus = 1" "variantCount maxMovesStatus = 1"
  by (simp_all add: variantCount_def forfeitStatus_def maxMovesStatus_def isInProgressV_def
        isCheckmateV_def isStalemateV_def isPlainDrawV_def isForfeitV_def)

subsection \<open>The material count after a move and after a reset\<close>

lemma makeMove_keeps_synced:
  "materialSynced E s \<Longrightarrow> materialSynced E (fst (makeMove E s mv))"
  by (auto simp add: makeMove_def materialSynced_def split: option.splits)

lemma makeMove_synced:
  "chess_move E (game s) mv \<noteq> None \<Longrightarrow> materialSynced E (fst (makeMove E s mv))"
  by (auto simp add: makeMove_def materialSynced_def)

lemma reset_synced: "materialSynced E (resetGame E s)"
  by (simp add: resetGame_def Let_def materialSynced_def)

subsection \<open>The concrete sessions\<close>

lemma afterE4_fields:
  "game afterE4 = startPos\<lparr> sp_turn := Black, sp_history := [''e2e4''] \<rparr>"
  "manualGameStatus afterE4 = None"
  "invalidMoveCount afterE4 = 0"
  by (simp_all add: afterE4_def makeMove_def initialSession_def chess_fields sp_play_def
        startPos_def)

lemma afterE4_guard: "aiGuard chess afterE4"
  by (simp add: aiGuard_def gameStatus_def afterE4_fields chess_fields startPos_def)

lemma afterE4_listed: "listedMovesAccepted chess (game afterE4)"
  by (simp add: listedMovesAccepted_def afterE4_fields chess_fields startPos_def sp_play_def)

lemma replies:
  "getAiMoveJson (replying ''Nf6'') f pl lm = Ok None"
  "getAiMoveJson (replying ''null'') f pl lm = Ok None"
  "getAiMoveJson (replying replyE7E5) f pl lm =
     Ok (Some \<lparr> mfrom = ''e7'', mto = ''e5'', promotion = None \<rparr>)"
  by (simp_all add: getAiMoveJson_def parseMove_def replying_def scriptedParse_def
        replyE7E5_def Let_def)


lemma sampleEvents_noReset: "noReset sampleEvents"
  by (simp add: noReset_def sampleEvents_def)

section \<open>The properties\<close>

text \<open>
  C1. A negotiation call (an AI turn whose guard holds) raises \<open>invalidMoveCount\<close> by
  exactly one when a failure occurs in it (the provider gives no usable proposal, or
  the engine rejects the provider's proposal) and leaves it unchanged otherwise, in
  particular when the provider's proposal is applied. The engine is taken to accept
  the moves it lists itself, which is what makes the fallback move legal by
  construction. The count is raised by updates relative to the count of the moment,
  all of them after the \<open>await\<close>, so a call that resumes after other handlers have run
  adds the same amount to the count it finds (\<open>resumeAiMove_count\<close>).
\<close>

theorem one_increment_per_negotiation:
  assumes "aiGuard E s" and "listedMovesAccepted E (game s)"
  shows "invalidMoveCount (makeAiMove E R opts r1 r2 s) =
         invalidMoveCount s + (if negotiationFailed E R opts s then 1 else 0)"
proof (cases "aiMode_of opts")
  case Random
  let ?s0 = "s\<lparr> isAiThinking := True \<rparr>"
  have acc: "listedMovesAccepted E (game ?s0)" using assms(2) by simp
  from assms(1) Random applyProposal_fallback [OF acc, of opts None r1 r2]
  show ?thesis by (simp add: makeAiMove_def Let_def negotiationFailed_def)
next
  case Gemini
  let ?s0 = "s\<lparr> isAiThinking := True \<rparr>"
  have acc: "listedMovesAccepted E (game ?s0)" using assms(2) by simp
  have "invalidMoveCount (makeAiMove E R opts r1 r2 s) =
        invalidMoveCount (resumeAiMove E opts r1 r2 (requestMove E R ?s0) ?s0)"
    using assms(1) Gemini by (simp add: makeAiMove_def Let_def)
  also have "\<dots> = invalidMoveCount ?s0 + (if replyFailed E (requestMove E R ?s0) ?s0 then 1 else 0)"
    by (rule resumeAiMove_count [OF Gemini acc])
  also have "\<dots> = invalidMoveCount s + (if negotiationFailed E R opts s then 1 else 0)"
    using Gemini by (simp add: negotiationFailed_reply [of E R opts s True])
  finally show ?thesis .
qed

theorem one_increment_per_negotiation_witness:
  "aiGuard chess afterE4 \<and> listedMovesAccepted chess (game afterE4)
   \<and> negotiationFailed chess (replying ''Nf6'') None afterE4
   \<and> invalidMoveCount (makeAiMove chess (replying ''Nf6'') None 1 0 afterE4)
       = invalidMoveCount afterE4 + 1
   \<and> \<not> negotiationFailed chess (replying replyE7E5) None afterE4
   \<and> invalidMoveCount (makeAiMove chess (replying replyE7E5) None 1 0 afterE4)
       = invalidMoveCount afterE4"
proof -
  have f1: "negotiationFailed chess (replying ''Nf6'') None afterE4"
    by (simp add: negotiationFailed_def aiMode_of_def replies)
  have f2: "\<not> negotiationFailed chess (replying replyE7E5) None afterE4"
    by (simp add: negotiationFailed_def aiMode_of_def replies afterE4_fields chess_fields
          sp_play_def startPos_def)
  from f1 f2 afterE4_guard afterE4_listed
    one_increment_per_negotiation [OF afterE4_guard afterE4_listed, of "replying ''Nf6''" None 1 0]
    one_increment_per_negotiation [OF afterE4_guard afterE4_listed, of "replying replyE7E5" None 1 0]
  show ?thesis by simp
qed

text \<open>
  The status the limit watcher writes on the third invalid reply is not the status
  with the reason "AI forfeited after too many invalid moves": the reason it writes
  names the provider.
\<close>

theorem forfeit_reason_counterexample:
  "manualGameStatus thirdInvalid = None \<and>
   invalidMoveCount thirdInvalid = MAX_INVALID_MOVES None \<and>
   manualGameStatus (limitWatcher None thirdInvalid) \<noteq> Some specForfeitStatus \<and>
   gameStatus chess (limitWatcher None thirdInvalid) \<noteq> specForfeitStatus"
  by (simp add: thirdInvalid_def initialSession_def limitWatcher_def MAX_INVALID_MOVES_def
       MAX_GAME_MOVES_def forfeitStatus_def specForfeitStatus_def gameStatus_def)

text \<open>
  C2, as the code has it. When \<open>invalidMoveCount\<close> has reached \<open>MAX_INVALID_MOVES\<close>
  while no override is set and the history is shorter than \<open>MAX_GAME_MOVES\<close>, a run of
  the limit watcher sets the override to the forfeit status with the human side
  (White) as winner and the reason "Gemini forfeited after too many invalid moves",
  and the status stays that one through every later click, start of an AI turn,
  pending call that resumes and watcher run, until a reset.
\<close>

theorem forfeit_sticky:
  assumes "manualGameStatus (session h) = None"
    and "invalidMoveCount (session h) \<ge> MAX_INVALID_MOVES opts"
    and "int (length (history (session h))) < MAX_GAME_MOVES opts"
    and "noReset evs"
  shows "manualGameStatus (limitWatcher opts (session h)) =
           Some \<lparr> isCheckmate = False, isStalemate = False, isDraw = False,
                  winner = Some (Side White),
                  reason = ''Gemini forfeited after too many invalid moves'' \<rparr>
         \<and> gameStatus E (session (run E opts (applyEvent E opts h Watch) evs)) =
           \<lparr> isCheckmate = False, isStalemate = False, isDraw = False,
             winner = Some (Side White),
             reason = ''Gemini forfeited after too many invalid moves'' \<rparr>"
proof -
  from assms(1-3) have m: "manualGameStatus (limitWatcher opts (session h)) = Some forfeitStatus"
    by (simp add: limitWatcher_def Let_def)
  then have "manualGameStatus (session (applyEvent E opts h Watch)) = Some forfeitStatus"
    by simp
  from run_override_kept [OF this assms(4), of E opts]
  have "gameStatus E (session (run E opts (applyEvent E opts h Watch) evs)) = forfeitStatus"
    by (simp add: gameStatus_def)
  with m show ?thesis by (simp add: forfeitStatus_def)
qed

theorem forfeit_sticky_witness:
  "manualGameStatus (session thirdInvalidPending) = None
   \<and> invalidMoveCount (session thirdInvalidPending) \<ge> MAX_INVALID_MOVES None
   \<and> int (length (history (session thirdInvalidPending))) < MAX_GAME_MOVES None
   \<and> noReset sampleEvents
   \<and> manualGameStatus (limitWatcher None (session thirdInvalidPending)) =
           Some \<lparr> isCheckmate = False, isStalemate = False, isDraw = False,
                  winner = Some (Side White),
                  reason = ''Gemini forfeited after too many invalid moves'' \<rparr>
   \<and> gameStatus chess
        (session (run chess None (applyEvent chess None thirdInvalidPending Watch) sampleEvents)) =
           \<lparr> isCheckmate = False, isStalemate = False, isDraw = False,
             winner = Some (Side White),
             reason = ''Gemini forfeited after too many invalid moves'' \<rparr>"
proof -
  have h1: "manualGameStatus (session thirdInvalidPending) = None"
    by (simp add: thirdInvalidPending_def thirdInvalid_def initialSession_def)
  have h2: "invalidMoveCount (session thirdInvalidPending) \<ge> MAX_INVALID_MOVES None"
    by (simp add: thirdInvalidPending_def thirdInvalid_def initialSession_def MAX_INVALID_MOVES_def)
  have h3: "int (length (history (session thirdInvalidPending))) < MAX_GAME_MOVES None"
    by (simp add: thirdInvalidPending_def thirdInvalid_def initialSession_def MAX_GAME_MOVES_def)
  from h1 h2 h3 sampleEvents_noReset forfeit_sticky [OF h1 h2 h3 sampleEvents_noReset, of chess]
  show ?thesis by simp
qed

text \<open>
  With bare kings and the position repeated for the third time, the engine reports a
  draw, threefold repetition and insufficient material, and the status gives
  insufficient material as the reason, not threefold repetition.
\<close>

theorem draw_reason_counterexample:
  "manualGameStatus bareKings = None \<and> \<not> in_checkmate chess (game bareKings) \<and>
   \<not> in_stalemate chess (game bareKings) \<and> in_draw chess (game bareKings) \<and>
   in_threefold_repetition chess (game bareKings) \<and> insufficient_material chess (game bareKings) \<and>
   reason (gameStatus chess bareKings) = ''Insufficient Material'' \<and>
   reason (gameStatus chess bareKings) \<noteq> ''Threefold Repetition''"
  by (simp add: bareKings_def bareKingsPos_def chess_fields initialSession_def gameStatus_def)

text \<open>
  C3, as the code has it. With no override, where the engine reports neither
  checkmate nor stalemate but a draw, the status is a draw whose reason is chosen in
  the order insufficient material, then threefold repetition, then the generic
  "Draw"; a position with both threefold repetition and insufficient material gives
  "Insufficient Material".
\<close>

theorem draw_reason_precedence:
  "manualGameStatus s = None \<Longrightarrow> \<not> in_checkmate E (game s) \<Longrightarrow> \<not> in_stalemate E (game s) \<Longrightarrow>
   in_draw E (game s) \<Longrightarrow>
   gameStatus E s =
     \<lparr> isCheckmate = False, isStalemate = False, isDraw = True, winner = Some DrawTag,
       reason = (if insufficient_material E (game s) then ''Insufficient Material''
                 else if in_threefold_repetition E (game s) then ''Threefold Repetition''
                 else ''Draw'') \<rparr>"
  by (simp add: gameStatus_def)

theorem draw_reason_precedence_witness:
  "manualGameStatus bareKings = None \<and> \<not> in_checkmate chess (game bareKings) \<and>
   \<not> in_stalemate chess (game bareKings) \<and> in_draw chess (game bareKings) \<and>
   gameStatus chess bareKings =
     \<lparr> isCheckmate = False, isStalemate = False, isDraw = True, winner = Some DrawTag,
       reason = ''Insufficient Material'' \<rparr>"
proof -
  have h1: "manualGameStatus bareKings = None"
    by (simp add: bareKings_def initialSession_def)
  have g: "game bareKings = bareKingsPos" by (simp add: bareKings_def)
  have h2: "\<not> in_checkmate chess (game bareKings)"
    and h3: "\<not> in_stalemate chess (game bareKings)"
    and h4: "in_draw chess (game bareKings)"
    and h5: "insufficient_material chess (game bareKings)"
    by (simp_all add: g bareKingsPos_def chess_fields)
  from h1 h2 h3 h4 h5 draw_reason_precedence [OF h1 h2 h3 h4]
  show ?thesis by simp
qed

text \<open>
  C4. When the third invalid reply comes with the two-hundredth half-move, one run of
  the limit watcher finds both limits reached with no override set; both of its tests
  read the override of the render they belong to, so the draw is written after the
  forfeit and replaces it.
\<close>

theorem both_limits_draw_overwrites:
  "manualGameStatus thirdInvalidAtMove200 = None \<and>
   invalidMoveCount thirdInvalidAtMove200 \<ge> MAX_INVALID_MOVES None \<and>
   int (length (history thirdInvalidAtMove200)) \<ge> MAX_GAME_MOVES None \<and>
   manualGameStatus (limitWatcher None thirdInvalidAtMove200) = Some maxMovesStatus \<and>
   manualGameStatus (limitWatcher None thirdInvalidAtMove200) \<noteq> Some forfeitStatus"
  by (simp add: thirdInvalidAtMove200_def initialSession_def limitWatcher_def MAX_INVALID_MOVES_def
       MAX_GAME_MOVES_def maxMovesStatus_def forfeitStatus_def)




text \<open>
  C6. A click that asks for a move the engine rejects changes nothing of the session
  but the selected square: position, FEN, history, material count, invalid-move count
  and override are the ones before the click.
\<close>

theorem rejected_human_move:
  "selectedSquare s = Some sel \<Longrightarrow>
   chess_move E (game s) (Obj \<lparr> mfrom = sel, mto = square, promotion = Some ''q'' \<rparr>) = None \<Longrightarrow>
   (handleSquareClick E s square)\<lparr> selectedSquare := selectedSquare s \<rparr> = s"
  by (simp add: handleSquareClick_def makeMove_def)

theorem rejected_human_move_witness:
  "selectedSquare e2Selected = Some ''e2''
   \<and> chess_move chess (game e2Selected)
        (Obj \<lparr> mfrom = ''e2'', mto = ''e5'', promotion = Some ''q'' \<rparr>) = None
   \<and> (handleSquareClick chess e2Selected ''e5'')\<lparr> selectedSquare := selectedSquare e2Selected \<rparr>
        = e2Selected"
proof -
  have h1: "selectedSquare e2Selected = Some ''e2''" by (simp add: e2Selected_def)
  have h2: "chess_move chess (game e2Selected)
              (Obj \<lparr> mfrom = ''e2'', mto = ''e5'', promotion = Some ''q'' \<rparr>) = None"
    by (simp add: e2Selected_def initialSession_def chess_fields sp_play_def startPos_def)
  from h1 h2 rejected_human_move [OF h1 h2] show ?thesis by simp
qed

text \<open>
  C7. After a reset the history is empty, the invalid-move count is 0, no override is
  set, and the material count is 39 for each side, the board of a new game being the
  starting board.
\<close>

theorem reset_fresh:
  "chess_board E (newChess E) = startBoard \<Longrightarrow>
   history (resetGame E s) = [] \<and> invalidMoveCount (resetGame E s) = 0 \<and>
   manualGameStatus (resetGame E s) = None \<and>
   materialCount (resetGame E s) = \<lparr> white = 39, black = 39 \<rparr>"
  by (simp add: resetGame_def Let_def material_start)

theorem reset_fresh_witness:
  "chess_board chess (newChess chess) = startBoard \<and>
   history (resetGame chess thirdInvalid) = [] \<and> invalidMoveCount (resetGame chess thirdInvalid) = 0 \<and>
   manualGameStatus (resetGame chess thirdInvalid) = None \<and>
   materialCount (resetGame chess thirdInvalid) = \<lparr> white = 39, black = 39 \<rparr>"
proof -
  have h: "chess_board chess (newChess chess) = startBoard"
    by (simp add: chess_fields startPos_def)
  show ?thesis using h reset_fresh [OF h, of thirdInvalid] by simp
qed

text \<open>
  C8. The session of the first render holds the material count 0 for each side, while
  the board it shows is the starting board, whose material is 39 for each side.
\<close>

theorem initial_material_not_synced:
  "materialCount (initialSession chess) = \<lparr> white = 0, black = 0 \<rparr> \<and>
   computeMaterialCount (chess_board chess (game (initialSession chess)))
     = \<lparr> white = 39, black = 39 \<rparr> \<and>
   \<not> materialSynced chess (initialSession chess)"
  by (simp add: initialSession_def chess_fields startPos_def material_start materialSynced_def)

text \<open>The status of a stalemate has the stalemate flag and the draw flag both set.\<close>

theorem stalemate_is_draw_counterexample:
  "isStalemateV (gameStatus chess stalemated) \<and> isDrawV (gameStatus chess stalemated)"
  by (simp add: stalemated_def stalematePos_def chess_fields initialSession_def
        gameStatus_def isStalemateV_def isDrawV_def)

text \<open>
  C9, as the code has it. The status is a record of flags. Whatever has happened to a
  session since its start (clicks, AI turns starting and resuming in any order,
  watcher runs, resets), its status is exactly one of the five variants when a draw
  is a status with the draw flag and without the stalemate flag: in progress,
  checkmate, stalemate (which sets the draw flag too), draw, forfeit.
\<close>

theorem status_one_variant:
  "variantCount (gameStatus E (session (run E opts (initialHook E) evs))) = 1"
proof -
  let ?s = "session (run E opts (initialHook E) evs)"
  have "manualByWatcher (session (initialHook E))"
    by (simp add: manualByWatcher_def initialHook_def initialSession_def)
  then have "manualByWatcher ?s"
    by (rule run_manualByWatcher)
  then consider
    "manualGameStatus ?s = None"
    | "manualGameStatus ?s = Some forfeitStatus"
    | "manualGameStatus ?s = Some maxMovesStatus"
    by (auto simp add: manualByWatcher_def)
  then show ?thesis
  proof cases
    case 1
    then show ?thesis by (rule variantCount_engine)
  next
    case 2
    then show ?thesis by (simp add: gameStatus_def variantCount_watcher)
  next
    case 3
    then show ?thesis by (simp add: gameStatus_def variantCount_watcher)
  qed
qed

theorem status_one_variant_witness:
  "variantCount (gameStatus chess (session (run chess None (initialHook chess) staleCalls))) = 1"
  by (rule status_one_variant)

text \<open>
  C10. \<open>getAiMoveJson\<close> never throws, and what it returns is the provider's proposal
  exactly when the call succeeds and its text parses as a JSON object with string
  fields \<open>from\<close> and \<open>to\<close> (\<open>promotion\<close> kept only when a non-empty string), and
  \<open>null\<close> in every other case.
\<close>

theorem provider_total:
  "getAiMoveJson R f pl lm \<noteq> Throw \<and>
   getAiMoveJson R f pl lm =
     Ok (wellFormedProposal R
           (prompt_text f (if pl = White then ''White'' else ''Black'') (join '', '' lm)))"
proof -
  let ?p = "prompt_text f (if pl = White then ''White'' else ''Black'') (join '', '' lm)"
  have "getAiMoveJson R f pl lm = Ok (wellFormedProposal R ?p)"
  proof (cases "generateContent R ?p")
    case Rejected
    then show ?thesis by (simp add: getAiMoveJson_def wellFormedProposal_def Let_def)
  next
    case (Response answer)
    show ?thesis
    proof (cases answer)
      case None
      with Response show ?thesis by (simp add: getAiMoveJson_def wellFormedProposal_def Let_def)
    next
      case (Some t)
      show ?thesis
      proof (cases "JSON_parse R (String_trim R t)")
        case None
        with Response Some show ?thesis
          by (simp add: getAiMoveJson_def wellFormedProposal_def parseMove_def Let_def)
      next
        case (Some parsed)
        with Response \<open>answer = Some t\<close> show ?thesis
          by (cases parsed)
             (auto simp add: getAiMoveJson_def wellFormedProposal_def parseMove_def Let_def
                   split: option.splits json.splits)
      qed
    qed
  qed
  then show ?thesis by simp
qed

theorem provider_total_witness:
  "getAiMoveJson (replying replyE7E5) ''8/8/8/8/8/8/8/8 b - - 0 1'' Black [''e7e5'']
     = Ok (Some \<lparr> mfrom = ''e7'', mto = ''e5'', promotion = None \<rparr>)
   \<and> wellFormedProposal (replying replyE7E5)
        (prompt_text ''8/8/8/8/8/8/8/8 b - - 0 1'' ''Black'' (join '', '' [''e7e5'']))
     = Some \<lparr> mfrom = ''e7'', mto = ''e5'', promotion = None \<rparr>
   \<and> getAiMoveJson (replying ''null'') ''8/8/8/8/8/8/8/8 b - - 0 1'' Black [''e7e5''] = Ok None"
  using provider_total [of "replying replyE7E5" "''8/8/8/8/8/8/8/8 b - - 0 1''" Black "[''e7e5'']"]
  by (simp add: replies)

end
